theory Spec2Isabelle
  imports Main "HOL-Library.Multiset"
begin

section \<open>The task table\<close>

text \<open>
  A row of the \<^verbatim>\<open>tasks\<close> table, with the columns the task store reads and writes.
  Timestamps are the whole seconds \<^verbatim>\<open>Math.floor(Date.now() / 1000)\<close> gives; a nullable
  column is an option. The JSON columns \<^verbatim>\<open>input_data\<close> and \<^verbatim>\<open>output_data\<close> hold the parsed
  value (\<^verbatim>\<open>JSON.parse\<close> of \<^verbatim>\<open>JSON.stringify\<close> is taken as the identity). Strings are byte
  strings; the source's Chinese literals are written as their UTF-8 bytes.
\<close>

datatype task_status = Pending | Processing | Completed | Failed | Cancelled

datatype task_type = Generate | Batch | Product_shot

text \<open>
  The parsed \<^verbatim>\<open>input_data\<close> of a task, with the keys the task processor reads by name. A
  missing key is \<open>None\<close>. A combination is the list of its string-valued entries, the
  only ones the processor uses.
\<close>

record input_data =
  imageBase64 :: string
  combinations :: "(string \<times> string) list list option"
  basePrompt :: string
  prompt :: "string option"
  aspectRatio :: "string option"
  templateId :: "string option"
  templateName :: "string option"
  variableValues :: "(string \<times> string) list"
  concurrency :: "int option"

datatype output_data =
  BatchOutput string nat
| ImageOutput string "string option" string

record task =
  task_id :: string
  user_id :: int
  type :: task_type
  status :: task_status
  input_data :: input_data
  output_data :: "output_data option"
  error_message :: "string option"
  progress :: int
  batch_id :: "string option"
  created_at :: int
  started_at :: "int option"
  completed_at :: "int option"

type_synonym db = "task list"

text \<open>
  \<^verbatim>\<open>UPDATE tasks SET ... WHERE ...\<close>: every row the condition selects is rewritten, and
  \<^verbatim>\<open>result.meta.changes\<close> is the number of rows selected.
\<close>

definition sql_update :: "(task \<Rightarrow> bool) \<Rightarrow> (task \<Rightarrow> task) \<Rightarrow> db \<Rightarrow> nat \<times> db" where
  "sql_update cond set_cols rows =
     (length (filter cond rows), map (\<lambda>r. if cond r then set_cols r else r) rows)"

text \<open>\<^verbatim>\<open>SELECT ... FROM tasks WHERE id = ?\<close> followed by \<^verbatim>\<open>.first()\<close>.\<close>

definition getById :: "db \<Rightarrow> string \<Rightarrow> task option" where
  "getById rows taskId = find (\<lambda>r. task_id r = taskId) rows"

text \<open>
  \<^verbatim>\<open>taskDb.create\<close>: the insert raises when the primary key \<^verbatim>\<open>id\<close> is already taken;
  \<^verbatim>\<open>batchId || null\<close> turns a missing or empty batch id into NULL.
\<close>

datatype store_error = UniqueConstraint | CheckConstraint

definition create ::
  "int \<Rightarrow> string \<Rightarrow> int \<Rightarrow> task_type \<Rightarrow> input_data \<Rightarrow> string option \<Rightarrow> db \<Rightarrow> store_error + db"
where
  "create now taskId userId ty inputData batchId rows =
     (if taskId \<in> set (map task_id rows) then Inl UniqueConstraint
      else Inr (rows @
        [\<lparr>task_id = taskId, user_id = userId, type = ty, status = Pending,
          input_data = inputData, output_data = None, error_message = None, progress = 0,
          batch_id = (case batchId of None \<Rightarrow> None | Some b \<Rightarrow> if b = [] then None else Some b),
          created_at = now, started_at = None, completed_at = None\<rparr>]))"

definition startProcessing :: "int \<Rightarrow> string \<Rightarrow> db \<Rightarrow> bool \<times> db" where
  "startProcessing now taskId rows =
     (let (changes, rows') =
        sql_update (\<lambda>r. task_id r = taskId \<and> status r = Pending)
          (\<lambda>r. r\<lparr>status := Processing, started_at := Some now, progress := 10\<rparr>) rows
      in (changes > 0, rows'))"

definition updateProgress :: "string \<Rightarrow> int \<Rightarrow> db \<Rightarrow> bool \<times> db" where
  "updateProgress taskId pct rows =
     (let (changes, rows') =
        sql_update (\<lambda>r. task_id r = taskId) (\<lambda>r. r\<lparr>progress := pct\<rparr>) rows
      in (changes > 0, rows'))"

definition complete :: "int \<Rightarrow> string \<Rightarrow> output_data \<Rightarrow> db \<Rightarrow> bool \<times> db" where
  "complete now taskId outputData rows =
     (let (changes, rows') =
        sql_update (\<lambda>r. task_id r = taskId)
          (\<lambda>r. r\<lparr>status := Completed, output_data := Some outputData,
                 completed_at := Some now, progress := 100\<rparr>) rows
      in (changes > 0, rows'))"

definition fail :: "int \<Rightarrow> string \<Rightarrow> string \<Rightarrow> db \<Rightarrow> bool \<times> db" where
  "fail now taskId errorMessage rows =
     (let (changes, rows') =
        sql_update (\<lambda>r. task_id r = taskId)
          (\<lambda>r. r\<lparr>status := Failed, error_message := Some errorMessage,
                 completed_at := Some now\<rparr>) rows
      in (changes > 0, rows'))"

text \<open>
  \<^verbatim>\<open>taskDb.resetStuckTasks\<close>: the cutoff is ten minutes before now; a NULL \<^verbatim>\<open>started_at\<close>
  never satisfies \<^verbatim>\<open>started_at < ?\<close>.
\<close>

definition resetStuckTasks :: "int \<Rightarrow> db \<Rightarrow> nat \<times> db" where
  "resetStuckTasks now rows =
     (let cutoff = now - 10 * 60 in
      sql_update
        (\<lambda>r. status r = Processing \<and> (case started_at r of None \<Rightarrow> False | Some s \<Rightarrow> s < cutoff))
        (\<lambda>r. r\<lparr>status := Pending, started_at := None, progress := 0\<rparr>) rows)"

text \<open>
  \<^verbatim>\<open>taskDb.cancel\<close> and its five messages: "task does not exist", "no permission to
  cancel this task", "task already completed, cannot cancel", "task already failed" and
  "task cancelled", as the UTF-8 bytes of the source literals.
\<close>

definition msg_not_found :: string where
  "msg_not_found =
     [CHR 0xE4, CHR 0xBB, CHR 0xBB, CHR 0xE5, CHR 0x8A, CHR 0xA1, CHR 0xE4, CHR 0xB8, CHR 0x8D,
      CHR 0xE5, CHR 0xAD, CHR 0x98, CHR 0xE5, CHR 0x9C, CHR 0xA8]"

definition msg_forbidden :: string where
  "msg_forbidden =
     [CHR 0xE6, CHR 0x97, CHR 0xA0, CHR 0xE6, CHR 0x9D, CHR 0x83, CHR 0xE5, CHR 0x8F, CHR 0x96,
      CHR 0xE6, CHR 0xB6, CHR 0x88, CHR 0xE6, CHR 0xAD, CHR 0xA4, CHR 0xE4, CHR 0xBB, CHR 0xBB,
      CHR 0xE5, CHR 0x8A, CHR 0xA1]"

definition msg_completed :: string where
  "msg_completed =
     [CHR 0xE4, CHR 0xBB, CHR 0xBB, CHR 0xE5, CHR 0x8A, CHR 0xA1, CHR 0xE5, CHR 0xB7, CHR 0xB2,
      CHR 0xE5, CHR 0xAE, CHR 0x8C, CHR 0xE6, CHR 0x88, CHR 0x90, CHR 0xEF, CHR 0xBC, CHR 0x8C,
      CHR 0xE6, CHR 0x97, CHR 0xA0, CHR 0xE6, CHR 0xB3, CHR 0x95, CHR 0xE5, CHR 0x8F, CHR 0x96,
      CHR 0xE6, CHR 0xB6, CHR 0x88]"

definition msg_failed :: string where
  "msg_failed =
     [CHR 0xE4, CHR 0xBB, CHR 0xBB, CHR 0xE5, CHR 0x8A, CHR 0xA1, CHR 0xE5, CHR 0xB7, CHR 0xB2,
      CHR 0xE5, CHR 0xA4, CHR 0xB1, CHR 0xE8, CHR 0xB4, CHR 0xA5]"

definition msg_cancelled :: string where
  "msg_cancelled =
     [CHR 0xE4, CHR 0xBB, CHR 0xBB, CHR 0xE5, CHR 0x8A, CHR 0xA1, CHR 0xE5, CHR 0xB7, CHR 0xB2,
      CHR 0xE5, CHR 0x8F, CHR 0x96, CHR 0xE6, CHR 0xB6, CHR 0x88]"

record cancel_result =
  success :: bool
  message :: string

text \<open>
  The table is created with
  \<^verbatim>\<open>status TEXT DEFAULT 'pending' CHECK (status IN ('pending', 'processing', 'completed', 'failed'))\<close>
  and no migration of the repository rebuilds it. A statement that would leave a row with
  another status raises and changes nothing. Every other update of the task store writes one
  of the four values, so only the update of \<^verbatim>\<open>cancel\<close> goes through the check here.
\<close>

definition status_check :: "task_status \<Rightarrow> bool" where
  "status_check s = (s = Pending \<or> s = Processing \<or> s = Completed \<or> s = Failed)"

definition checked_update ::
  "(task \<Rightarrow> bool) \<Rightarrow> (task \<Rightarrow> task) \<Rightarrow> db \<Rightarrow> store_error + nat \<times> db"
where
  "checked_update cond set_cols rows =
     (if list_ex (\<lambda>r. cond r \<and> \<not> status_check (status (set_cols r))) rows
      then Inl CheckConstraint
      else Inr (sql_update cond set_cols rows))"

text \<open>
  \<^verbatim>\<open>taskDb.cancel\<close>: \<open>Inl\<close> when the update raises, \<open>Inr\<close> with the returned object and the
  table otherwise.
\<close>

definition cancel :: "int \<Rightarrow> string \<Rightarrow> int \<Rightarrow> db \<Rightarrow> store_error + cancel_result \<times> db" where
  "cancel now taskId userId rows =
     (case getById rows taskId of
        None \<Rightarrow> Inr (\<lparr>success = False, message = msg_not_found\<rparr>, rows)
      | Some t \<Rightarrow>
          if user_id t \<noteq> userId then Inr (\<lparr>success = False, message = msg_forbidden\<rparr>, rows)
          else if status t = Completed then Inr (\<lparr>success = False, message = msg_completed\<rparr>, rows)
          else if status t = Failed then Inr (\<lparr>success = False, message = msg_failed\<rparr>, rows)
          else (case checked_update (\<lambda>r. task_id r = taskId)
                       (\<lambda>r. r\<lparr>status := Cancelled, completed_at := Some now\<rparr>) rows of
                  Inl err \<Rightarrow> Inl err
                | Inr (changes, rows') \<Rightarrow> Inr (\<lparr>success = True, message = msg_cancelled\<rparr>, rows')))"

text \<open>
  \<^verbatim>\<open>taskDb.getBatchProgress\<close>: \<^verbatim>\<open>COUNT(*)\<close> and four conditional sums over the rows whose
  \<^verbatim>\<open>batch_id\<close> equals the argument; over no rows the sums are NULL, which \<^verbatim>\<open>|| 0\<close> reads
  as 0.
\<close>

record BatchProgress =
  total_count :: nat
  completed :: nat
  failed :: nat
  processing :: nat
  pending :: nat

definition getBatchProgress :: "db \<Rightarrow> string \<Rightarrow> BatchProgress" where
  "getBatchProgress rows batchId =
     (let sel = filter (\<lambda>r. batch_id r = Some batchId) rows in
      \<lparr>total_count = length sel,
       completed = length (filter (\<lambda>r. status r = Completed) sel),
       failed = length (filter (\<lambda>r. status r = Failed) sel),
       processing = length (filter (\<lambda>r. status r = Processing) sel),
       pending = length (filter (\<lambda>r. status r = Pending) sel)\<rparr>)"


text \<open>The primary key: no two rows share an id.\<close>

definition primary_key :: "db \<Rightarrow> bool" where
  "primary_key rows = distinct (map task_id rows)"

text \<open>
  The operations of the task store as values, so that a history of the store is a list:
  each operation with the clock reading at which it runs. A statement that raises leaves the
  table as it was.
\<close>

datatype store_op =
  Create string int task_type input_data "string option"
| StartProcessing string
| UpdateProgress string int
| Complete string output_data
| Fail string string
| Cancel string int
| ResetStuckTasks

fun apply_op :: "int \<Rightarrow> store_op \<Rightarrow> db \<Rightarrow> db" where
  "apply_op now (Create taskId userId ty inputData batchId) rows =
     (case create now taskId userId ty inputData batchId rows of
        Inl err \<Rightarrow> rows | Inr rows' \<Rightarrow> rows')"
| "apply_op now (StartProcessing taskId) rows = snd (startProcessing now taskId rows)"
| "apply_op now (UpdateProgress taskId pct) rows = snd (updateProgress taskId pct rows)"
| "apply_op now (Complete taskId outputData) rows = snd (complete now taskId outputData rows)"
| "apply_op now (Fail taskId errorMessage) rows = snd (fail now taskId errorMessage rows)"
| "apply_op now (Cancel taskId userId) rows =
     (case cancel now taskId userId rows of
        Inl err \<Rightarrow> rows | Inr (res, rows') \<Rightarrow> rows')"
| "apply_op now ResetStuckTasks rows = snd (resetStuckTasks now rows)"

fun run_ops :: "(int \<times> store_op) list \<Rightarrow> db \<Rightarrow> db" where
  "run_ops [] rows = rows"
| "run_ops ((now, op) # ops) rows = run_ops ops (apply_op now op rows)"

definition terminal :: "task_status \<Rightarrow> bool" where
  "terminal s = (s = Completed \<or> s = Failed \<or> s = Cancelled)"

text \<open>The check constraint as a property of a table: every row has one of the four values.\<close>

definition check_ok :: "db \<Rightarrow> bool" where
  "check_ok rows = list_all (\<lambda>r. status_check (status r)) rows"

section \<open>The concurrency-limited executor\<close>


datatype event = Started nat | Finished nat








text \<open>
  What a trace shows: the units started and the units finished, in order, and the number of
  units in flight after a trace.
\<close>

fun started :: "event list \<Rightarrow> nat list" where
  "started [] = []"
| "started (Started i # es) = i # started es"
| "started (Finished i # es) = started es"

fun finished :: "event list \<Rightarrow> nat list" where
  "finished [] = []"
| "finished (Started i # es) = finished es"
| "finished (Finished i # es) = i # finished es"










section \<open>The task processor\<close>

text \<open>
  What \<^verbatim>\<open>processTask\<close> takes from outside the task store. \<^verbatim>\<open>crypto.randomUUID()\<close> is a
  source of identifiers, read at the count of identifiers drawn so far. The substitution of
  one variable into the prompt (\<^verbatim>\<open>prompt.replace(new RegExp(...), value)\<close>) is
  \<open>replaceAll\<close>. The product-shot and single-image branches, from the call of the
  generation API to the argument of \<^verbatim>\<open>taskDb.complete\<close>, are \<open>generation\<close>: given what
  they read of the loaded task (its type, its user id and its input) it yields the output
  data, or the message of the exception raised on the way.
  These branches write to the image store and the image table, never to the task table.
  \<open>schedule\<close> is the order in which concurrent units settle.
\<close>

record env =
  randomUUID :: "nat \<Rightarrow> string"
  replaceAll :: "string \<Rightarrow> string \<Rightarrow> string \<Rightarrow> string"
  generation :: "task_type \<Rightarrow> int \<Rightarrow> input_data \<Rightarrow> string + output_data"
  schedule :: "event list \<Rightarrow> nat"

text \<open>
  The state the processor works on: the task table, the clock reading
  \<^verbatim>\<open>Math.floor(Date.now() / 1000)\<close>, the number of identifiers drawn, and the ids of the tasks
  for which the generation branch has been run, in order. The store model has no storage
  errors, so no call of the task store raises except the insert of a taken id.
\<close>

record world =
  tasks :: db
  clock :: int
  uuids :: nat
  generated :: "string list"





text \<open>\<^verbatim>\<open>input.aspectRatio as string || '3:4'\<close>.\<close>

definition batch_aspectRatio :: "input_data \<Rightarrow> string" where
  "batch_aspectRatio input =
     (case aspectRatio input of None \<Rightarrow> ''3:4'' | Some a \<Rightarrow> if a = [] then ''3:4'' else a)"

text \<open>The input of the sub-task for one combination.\<close>

definition subTaskInput :: "env \<Rightarrow> input_data \<Rightarrow> (string \<times> string) list \<Rightarrow> input_data" where
  "subTaskInput env input combo =
     \<lparr>imageBase64 = imageBase64 input, combinations = None, basePrompt = [],
      prompt = Some (fold (\<lambda>(key, val) p. replaceAll env p key val) combo (basePrompt input)),
      aspectRatio = Some (batch_aspectRatio input), templateId = templateId input,
      templateName = templateName input, variableValues = combo, concurrency = None\<rparr>"


text \<open>
  The rows the loop inserts when no insert raises: one pending task of type generate per
  combination, with the identifiers drawn from \<open>u\<close> on and the batch id in common.
\<close>

fun subTaskRows ::
  "env \<Rightarrow> task \<Rightarrow> string \<Rightarrow> int \<Rightarrow> nat \<Rightarrow> (string \<times> string) list list \<Rightarrow> task list"
where
  "subTaskRows env task batchId now u [] = []"
| "subTaskRows env task batchId now u (combo # rest) =
     \<lparr>task_id = randomUUID env u, user_id = user_id task, type = Generate, status = Pending,
      input_data = subTaskInput env (input_data task) combo, output_data = None,
      error_message = None, progress = 0, batch_id = Some batchId, created_at = now,
      started_at = None, completed_at = None\<rparr>
     # subTaskRows env task batchId now (Suc u) rest"








section \<open>The queue consumer\<close>

text \<open>
  A delivery of the broker: the message body and the number of the attempt. The consumer
  settles each message by acknowledging it or by asking for redelivery after a delay in
  seconds.
\<close>

record queue_message =
  msg_taskId :: string
  msg_type :: task_type
  msg_timestamp :: int
  msg_attempts :: nat

datatype disposition = Ack | Retry nat

text \<open>The fallback message of the consumer, "processing failed", as UTF-8 bytes.\<close>

definition msg_queue_failed :: string where
  "msg_queue_failed =
     [CHR 0xE5, CHR 0xA4, CHR 0x84, CHR 0xE7, CHR 0x90, CHR 0x86, CHR 0xE5, CHR 0xA4, CHR 0xB1,
      CHR 0xE8, CHR 0xB4, CHR 0xA5]"

text \<open>
  The two calls the consumer makes. \<open>proc\<close> is \<^verbatim>\<open>await processTask(env, taskId)\<close> as the
  consumer sees it: \<open>Inr\<close> when it returns, \<open>Inl\<close> with the message of the exception when
  it raises, each with the state it leaves. In the source the call raises when the task store
  does, on a statement outside the \<^verbatim>\<open>try\<close> block of \<^verbatim>\<open>processTask\<close> or inside its
  \<^verbatim>\<open>catch\<close> block; the processor model above leaves storage errors out, so the consumer is
  stated for any behaviour of the call. \<open>down\<close> says whether the task store raises on a
  statement issued in a given state, and with which message.
\<close>

definition store_fail ::
  "(world \<Rightarrow> string option) \<Rightarrow> string \<Rightarrow> string \<Rightarrow> world \<Rightarrow> string + world"
where
  "store_fail down taskId errorMessage w =
     (case down w of
        Some err \<Rightarrow> Inl err
      | None \<Rightarrow> Inr (w\<lparr>tasks := snd (fail (clock w) taskId errorMessage (tasks w))\<rparr>))"

text \<open>
  The body of the loop of \<^verbatim>\<open>queue\<close> for one message: \<open>Inr\<close> with what the message was
  settled with, \<open>Inl\<close> when the body raises, which it does when \<^verbatim>\<open>taskDb.fail\<close> raises in
  the \<^verbatim>\<open>catch\<close> block; the message is then not settled.
\<close>

definition consume ::
  "(string \<Rightarrow> world \<Rightarrow> (string \<times> world) + world) \<Rightarrow> (world \<Rightarrow> string option)
     \<Rightarrow> queue_message \<Rightarrow> world \<Rightarrow> (string \<times> world) + (disposition \<times> world)"
where
  "consume proc down m w =
     (case proc (msg_taskId m) w of
        Inr w' \<Rightarrow> Inr (Ack, w')
      | Inl (err, w') \<Rightarrow>
          (case store_fail down (msg_taskId m) (if err = [] then msg_queue_failed else err) w' of
             Inl err' \<Rightarrow> Inl (err', w')
           | Inr w'' \<Rightarrow>
               Inr (if msg_attempts m < 3 then Retry (2 ^ msg_attempts m * 10) else Ack, w'')))"

text \<open>
  The handler \<^verbatim>\<open>queue\<close>: the messages of the batch one after the other. It returns what each
  message was settled with, in the order of the batch, the last state, and the message of
  the exception if it raised; the dispositions are then fewer than the messages, and the
  message whose body raised and all later ones are left unsettled.
\<close>

fun queue ::
  "(string \<Rightarrow> world \<Rightarrow> (string \<times> world) + world) \<Rightarrow> (world \<Rightarrow> string option)
     \<Rightarrow> queue_message list \<Rightarrow> world \<Rightarrow> disposition list \<times> world \<times> string option"
where
  "queue proc down [] w = ([], w, None)"
| "queue proc down (m # ms) w =
     (case consume proc down m w of
        Inl (err, w1) \<Rightarrow> ([], w1, Some err)
      | Inr (d, w1) \<Rightarrow>
          (case queue proc down ms w1 of (ds, w2, raised) \<Rightarrow> (d # ds, w2, raised)))"

text \<open>
  The broker's side of a retry, which is not code of this repository: the message is
  delivered again after the delay, with the attempt count one higher. \<open>redeliver\<close> follows
  one message, delivered alone, until the handler acknowledges it or raises, and returns the
  last delivery, the state then, and the message of the exception if the handler raised.
  What the broker does with a message the handler left unsettled is its configuration.
\<close>

function redeliver ::
  "(string \<Rightarrow> world \<Rightarrow> (string \<times> world) + world) \<Rightarrow> (world \<Rightarrow> string option)
     \<Rightarrow> queue_message \<Rightarrow> world \<Rightarrow> queue_message \<times> world \<times> string option"
where
  "redeliver proc down m w =
     (case queue proc down [m] w of
        (Retry delaySeconds # ds, w', raised) \<Rightarrow>
          redeliver proc down (m\<lparr>msg_attempts := Suc (msg_attempts m)\<rparr>)
            (w'\<lparr>clock := clock w' + int delaySeconds\<rparr>)
      | (ds, w', raised) \<Rightarrow> (m, w', raised))"
  by pat_completeness auto
termination
proof (relation "measure (\<lambda>(proc, down, m, w). 3 - msg_attempts m)")
  show "wf (measure (\<lambda>(proc, down, m, w). 3 - msg_attempts m))"
    by simp
next
  fix proc :: "string \<Rightarrow> world \<Rightarrow> (string \<times> world) + world"
    and down :: "world \<Rightarrow> string option"
    and m :: queue_message and w w' :: world and x :: "disposition list"
    and y :: "world \<times> string option" and raised :: "string option"
    and d :: disposition and ds :: "disposition list" and delaySeconds :: nat
  assume "(x, y) = queue proc down [m] w" and "(w', raised) = y"
    and "x = d # ds" and "d = Retry delaySeconds"
  then have "msg_attempts m < 3"
    by (auto simp: consume_def store_fail_def
          split: sum.splits prod.splits if_splits option.splits)
  then show "((proc, down, m\<lparr>msg_attempts := Suc (msg_attempts m)\<rparr>,
               w'\<lparr>clock := clock w' + int delaySeconds\<rparr>), (proc, down, m, w))
             \<in> measure (\<lambda>(proc, down, m, w). 3 - msg_attempts m)"
    by simp
qed

declare redeliver.simps [simp del]

section \<open>Example data\<close>

definition ex_input :: input_data where
  "ex_input =
     \<lparr>imageBase64 = ''img'', combinations = None, basePrompt = [], prompt = Some ''a prompt'',
      aspectRatio = None, templateId = None, templateName = None, variableValues = [],
      concurrency = None\<rparr>"

definition ex_task :: task where
  "ex_task =
     \<lparr>task_id = ''t1'', user_id = 7, type = Generate, status = Pending,
      input_data = ex_input, output_data = None, error_message = None, progress = 0,
      batch_id = None, created_at = 100, started_at = None, completed_at = None\<rparr>"

definition ex_sibling_history :: "(int \<times> store_op) list" where
  "ex_sibling_history =
     [(100, Create ''s1'' 7 Generate ex_input (Some ''b1'')),
      (101, Create ''s2'' 7 Generate ex_input (Some ''b1'')),
      (105, Cancel ''s1'' 7)]"

definition ex_overwrite_history :: "(int \<times> store_op) list" where
  "ex_overwrite_history =
     [(100, Create ''t1'' 7 Generate ex_input None),
      (101, StartProcessing ''t1''),
      (102, Fail ''t1'' ''quota exceeded'')]"

definition ex_stuck_history :: "(int \<times> store_op) list" where
  "ex_stuck_history =
     [(50, Create ''a'' 7 Generate ex_input None),
      (60, Create ''b'' 7 Generate ex_input None),
      (70, Create ''c'' 7 Generate ex_input None),
      (100, StartProcessing ''a''),
      (1000, StartProcessing ''b'')]"







text \<open>
  A world with one pending task, a generation that succeeds, and another worker that claims
  the task while the first one waits for its load.
\<close>

definition ex_world :: world where
  "ex_world = \<lparr>tasks = [ex_task], clock = 200, uuids = 0, generated = []\<rparr>"






text \<open>
  A processor call that raises on every delivery, a task store that answers, one that has
  lost its connection, and a first delivery.
\<close>

definition ex_raising :: "string \<Rightarrow> world \<Rightarrow> (string \<times> world) + world" where
  "ex_raising taskId w = Inl (''D1_ERROR: Network connection lost'', w)"

definition store_up :: "world \<Rightarrow> string option" where
  "store_up w = None"

definition store_lost :: "world \<Rightarrow> string option" where
  "store_lost w = Some ''D1_ERROR: Network connection lost''"

definition ex_message :: queue_message where
  "ex_message = \<lparr>msg_taskId = ''t1'', msg_type = Generate, msg_timestamp = 0, msg_attempts = 1\<rparr>"




section \<open>Properties of the task store\<close>

lemma find_map_same_key:
  assumes "\<And>r. task_id (f r) = task_id r"
  shows "find (\<lambda>r. task_id r = k) (map f rows) = map_option f (find (\<lambda>r. task_id r = k) rows)"
  using assms by (induction rows) auto

lemma getById_sql_update:
  assumes "\<And>r. task_id (g r) = task_id r"
  shows "getById (snd (sql_update c g rows)) k =
         map_option (\<lambda>r. if c r then g r else r) (getById rows k)"
  unfolding getById_def sql_update_def snd_conv
  by (rule find_map_same_key) (simp add: assms)

lemma getById_Some_id: "getById rows k = Some t \<Longrightarrow> task_id t = k"
  unfolding getById_def by (induction rows) (auto split: if_splits)

lemma getById_Some_mem: "getById rows k = Some t \<Longrightarrow> t \<in> set rows"
  unfolding getById_def by (induction rows) (auto split: if_splits)

lemma primary_key_filter_id:
  assumes "primary_key rows" and "getById rows k = Some t"
  shows "filter (\<lambda>r. task_id r = k) rows = [t]"
  using assms unfolding primary_key_def getById_def
proof (induction rows)
  case Nil
  then show ?case by simp
next
  case (Cons r rows)
  show ?case
  proof (cases "task_id r = k")
    case True
    with Cons.prems have "t = r" and "k \<notin> task_id ` set rows" by auto
    then have "filter (\<lambda>r. task_id r = k) rows = []"
      by (auto simp: filter_empty_conv)
    with True \<open>t = r\<close> show ?thesis by simp
  next
    case False
    with Cons show ?thesis by simp
  qed
qed

lemma sql_update_none:
  assumes "\<And>r. r \<in> set rows \<Longrightarrow> \<not> c r"
  shows "sql_update c g rows = (0, rows)"
  using assms unfolding sql_update_def by (simp add: map_idI)

lemma startProcessing_won:
  assumes "primary_key rows" and "getById rows taskId = Some t" and "status t = Pending"
  shows "fst (startProcessing now taskId rows) = True"
  using primary_key_filter_id[OF assms(1,2)] getById_Some_id[OF assms(2)] getById_Some_mem[OF assms(2)] assms(3)
  unfolding startProcessing_def sql_update_def
  apply (simp add: case_prod_unfold Let_def)
  apply (auto simp: filter_empty_conv)
  done

lemma startProcessing_lost:
  assumes "primary_key rows" and "getById rows taskId = Some t" and "status t \<noteq> Pending"
  shows "startProcessing now taskId rows = (False, rows)"
proof -
  have "\<And>r. r \<in> set rows \<Longrightarrow> \<not> (task_id r = taskId \<and> status r = Pending)"
  proof
    fix r assume "r \<in> set rows" and "task_id r = taskId \<and> status r = Pending"
    then have "r \<in> set (filter (\<lambda>r. task_id r = taskId) rows)" by simp
    then have "r = t" using primary_key_filter_id[OF assms(1,2)] by simp
    with \<open>task_id r = taskId \<and> status r = Pending\<close> assms(3) show False by simp
  qed
  then show ?thesis
    unfolding startProcessing_def by (simp add: sql_update_none)
qed

lemma getById_startProcessing:
  "getById (snd (startProcessing now taskId rows)) k =
   map_option (\<lambda>r. if task_id r = taskId \<and> status r = Pending
       then r\<lparr>status := Processing, started_at := Some now, progress := 10\<rparr> else r) (getById rows k)"
  unfolding startProcessing_def
  by (simp add: case_prod_unfold Let_def getById_sql_update)

lemma map_task_id_sql_update:
  assumes "\<And>r. task_id (g r) = task_id r"
  shows "map task_id (snd (sql_update c g rows)) = map task_id rows"
  unfolding sql_update_def by (induction rows) (simp_all add: assms)

lemma primary_key_sql_update:
  assumes "\<And>r. task_id (g r) = task_id r"
  shows "primary_key (snd (sql_update c g rows)) = primary_key rows"
  unfolding primary_key_def by (simp only: map_task_id_sql_update[OF assms])

text \<open>
  Claim C1. For a task that exists, \<open>startProcessing\<close> returns true exactly when the
  task's status is pending; it then sets status to processing, \<open>started_at\<close> to the
  current time and progress to 10. With any other status it returns false and the table is
  unchanged. No other task is touched. Of two calls on the same pending task, which the
  database runs one after the other, the first returns true, the second returns false and
  changes nothing, and the status stays processing.
\<close>

theorem startProcessing_cas:
  assumes "primary_key rows" and "getById rows taskId = Some t"
  shows "fst (startProcessing now taskId rows) = (status t = Pending)
       \<and> (status t = Pending \<longrightarrow>
            getById (snd (startProcessing now taskId rows)) taskId =
              Some (t\<lparr>status := Processing, started_at := Some now, progress := 10\<rparr>))
       \<and> (status t \<noteq> Pending \<longrightarrow> snd (startProcessing now taskId rows) = rows)
       \<and> (\<forall>k. k \<noteq> taskId \<longrightarrow>
            getById (snd (startProcessing now taskId rows)) k = getById rows k)
       \<and> (status t = Pending \<longrightarrow>
            (let (first, rows1) = startProcessing now taskId rows;
                 (second, rows2) = startProcessing later taskId rows1
             in first \<and> \<not> second \<and> rows2 = rows1
                \<and> map_option status (getById rows2 taskId) = Some Processing))"
proof (intro conjI impI allI)
  show "fst (startProcessing now taskId rows) = (status t = Pending)"
    using startProcessing_won[OF assms] startProcessing_lost[OF assms, of now]
    by (cases "status t = Pending") simp_all
next
  assume "status t = Pending"
  then show "getById (snd (startProcessing now taskId rows)) taskId =
      Some (t\<lparr>status := Processing, started_at := Some now, progress := 10\<rparr>)"
    using assms(2) getById_Some_id[OF assms(2)] by (simp add: getById_startProcessing)
next
  assume "status t \<noteq> Pending"
  then show "snd (startProcessing now taskId rows) = rows"
    using startProcessing_lost[OF assms, of now] by simp
next
  fix k assume "k \<noteq> taskId"
  show "getById (snd (startProcessing now taskId rows)) k = getById rows k"
  proof (cases "getById rows k")
    case None
    then show ?thesis by (simp add: getById_startProcessing)
  next
    case (Some r)
    with \<open>k \<noteq> taskId\<close> getById_Some_id[OF Some] show ?thesis
      by (simp add: getById_startProcessing)
  qed
next
  assume pend: "status t = Pending"
  let ?t' = "t\<lparr>status := Processing, started_at := Some now, progress := 10\<rparr>"
  let ?rows1 = "snd (startProcessing now taskId rows)"
  have won: "fst (startProcessing now taskId rows)"
    using startProcessing_won[OF assms pend] by simp
  have g1: "getById ?rows1 taskId = Some ?t'"
    using pend assms(2) getById_Some_id[OF assms(2)] by (simp add: getById_startProcessing)
  have pk1: "primary_key ?rows1"
    unfolding startProcessing_def using assms(1)
    by (simp add: case_prod_unfold Let_def primary_key_sql_update)
  have lost: "startProcessing later taskId ?rows1 = (False, ?rows1)"
    by (rule startProcessing_lost[OF pk1 g1]) simp
  show "let (first, rows1) = startProcessing now taskId rows;
            (second, rows2) = startProcessing later taskId rows1
        in first \<and> \<not> second \<and> rows2 = rows1
           \<and> map_option status (getById rows2 taskId) = Some Processing"
    using won lost g1 by (simp add: case_prod_unfold Let_def)
qed

theorem startProcessing_cas_witness:
  "primary_key [ex_task] \<and> getById [ex_task] ''t1'' = Some ex_task
   \<and> fst (startProcessing 500 ''t1'' [ex_task])
   \<and> getById (snd (startProcessing 500 ''t1'' [ex_task])) ''t1'' =
       Some (ex_task\<lparr>status := Processing, started_at := Some 500, progress := 10\<rparr>)"
proof -
  have pk: "primary_key [ex_task]"
    by (simp add: primary_key_def)
  have ld: "getById [ex_task] ''t1'' = Some ex_task"
    by (simp add: getById_def ex_task_def)
  have pend: "status ex_task = Pending"
    by (simp add: ex_task_def)
  show ?thesis
    using startProcessing_cas [OF pk ld, of 500 501] pk ld pend by simp
qed

lemma getById_append:
  "getById (rows @ extra) k = (case getById rows k of None \<Rightarrow> getById extra k | Some t \<Rightarrow> Some t)"
  unfolding getById_def by (induction rows) auto

lemma getById_update_other:
  assumes "\<And>r. task_id (g r) = task_id r" and "\<And>r. c r \<Longrightarrow> task_id r = taskId" and "k \<noteq> taskId"
  shows "getById (snd (sql_update c g rows)) k = getById rows k"
proof (cases "getById rows k")
  case None
  then show ?thesis by (simp add: getById_sql_update assms(1))
next
  case (Some r)
  from getById_Some_id[OF Some] assms(2)[of r] assms(3) have "\<not> c r" by auto
  with Some show ?thesis by (simp add: getById_sql_update assms(1))
qed

lemma getById_create:
  assumes "getById rows k = Some t"
  shows "getById (apply_op now (Create taskId userId ty inputData batchId) rows) k = Some t"
  using assms by (auto simp: create_def getById_append)

lemma getById_updateProgress:
  "getById (snd (updateProgress taskId pct rows)) k =
   map_option (\<lambda>r. if task_id r = taskId then r\<lparr>progress := pct\<rparr> else r) (getById rows k)"
  unfolding updateProgress_def by (simp add: case_prod_unfold Let_def getById_sql_update)

lemma getById_complete:
  "getById (snd (complete now taskId out rows)) k =
   map_option (\<lambda>r. if task_id r = taskId
      then r\<lparr>status := Completed, output_data := Some out, completed_at := Some now, progress := 100\<rparr>
      else r) (getById rows k)"
  unfolding complete_def by (simp add: case_prod_unfold Let_def getById_sql_update)

lemma getById_fail:
  "getById (snd (fail now taskId msg rows)) k =
   map_option (\<lambda>r. if task_id r = taskId
      then r\<lparr>status := Failed, error_message := Some msg, completed_at := Some now\<rparr>
      else r) (getById rows k)"
  unfolding fail_def by (simp add: case_prod_unfold Let_def getById_sql_update)

lemma getById_resetStuckTasks:
  "getById (snd (resetStuckTasks now rows)) k =
   map_option (\<lambda>r. if status r = Processing \<and> (case started_at r of None \<Rightarrow> False | Some s \<Rightarrow> s < now - 600)
      then r\<lparr>status := Pending, started_at := None, progress := 0\<rparr> else r) (getById rows k)"
  unfolding resetStuckTasks_def by (simp add: Let_def getById_sql_update)

lemma checked_update_raises:
  assumes "getById rows taskId = Some t" and "\<And>r. \<not> status_check (status (g r))"
  shows "checked_update (\<lambda>r. task_id r = taskId) g rows = Inl CheckConstraint"
proof -
  from getById_Some_mem[OF assms(1)] getById_Some_id[OF assms(1)] assms(2)
  have "list_ex (\<lambda>r. task_id r = taskId \<and> \<not> status_check (status (g r))) rows"
    by (auto simp: list_ex_iff)
  then show ?thesis
    by (simp add: checked_update_def)
qed

lemma cancel_live_raises:
  assumes "getById rows taskId = Some t" and "user_id t = userId"
    and "status t \<noteq> Completed" and "status t \<noteq> Failed"
  shows "cancel now taskId userId rows = Inl CheckConstraint"
proof -
  have "checked_update (\<lambda>r. task_id r = taskId)
          (\<lambda>r. r\<lparr>status := Cancelled, completed_at := Some now\<rparr>) rows = Inl CheckConstraint"
    by (rule checked_update_raises[OF assms(1)]) (simp add: status_check_def)
  with assms show ?thesis
    by (simp add: cancel_def)
qed

lemma apply_op_cancel: "apply_op now (Cancel taskId userId) rows = rows"
proof (cases "getById rows taskId")
  case None
  then show ?thesis by (simp add: cancel_def)
next
  case (Some t)
  show ?thesis
  proof (cases "user_id t = userId \<and> status t \<noteq> Completed \<and> status t \<noteq> Failed")
    case True
    with cancel_live_raises[OF Some, of userId now] show ?thesis by simp
  next
    case False
    with Some show ?thesis by (auto simp: cancel_def)
  qed
qed

lemmas store_eval = create_def startProcessing_def updateProgress_def complete_def fail_def
  cancel_def checked_update_def status_check_def resetStuckTasks_def sql_update_def getById_def
  getBatchProgress_def ex_input_def

text \<open>
  Claim C3, as stated, fails: \<open>complete\<close> and \<open>fail\<close> write whatever the status is.
  A task created, started and failed is completed by a later \<open>complete\<close>, so its
  status leaves the terminal status failed.
\<close>

theorem complete_overwrites_failed:
  "map_option status (getById (run_ops ex_overwrite_history []) ''t1'') = Some Failed
   \<and> map_option status (getById
        (apply_op 103 (Complete ''t1'' (ImageOutput ''url'' None ''i1''))
           (run_ops ex_overwrite_history [])) ''t1'') = Some Completed"
  by (simp add: ex_overwrite_history_def store_eval)

text \<open>
  Claim C3, amended. No operation moves a task out of the set of terminal statuses: a task
  whose status is completed, failed or cancelled still exists after any operation and its
  status is still terminal. The status is the same one, except that \<open>complete\<close> on that
  task makes it completed and \<open>fail\<close> on that task makes it failed, whatever it was.
\<close>

theorem terminal_stays_terminal:
  assumes "getById rows k = Some t" and "terminal (status t)"
  shows "\<exists>t'. getById (apply_op now op rows) k = Some t' \<and> terminal (status t')
           \<and> status t' =
               (case op of
                  Complete taskId out \<Rightarrow> if taskId = k then Completed else status t
                | Fail taskId msg \<Rightarrow> if taskId = k then Failed else status t
                | _ \<Rightarrow> status t)"
proof (cases op)
  case (Create taskId userId ty inputData batchId)
  with assms getById_create[OF assms(1)] show ?thesis by simp
next
  case (StartProcessing taskId)
  with assms show ?thesis
    by (auto simp: getById_startProcessing terminal_def)
next
  case (UpdateProgress taskId pct)
  with assms show ?thesis
    by (auto simp: getById_updateProgress terminal_def)
next
  case (Complete taskId out)
  with assms getById_Some_id[OF assms(1)] show ?thesis
    by (auto simp: getById_complete terminal_def)
next
  case (Fail taskId msg)
  with assms getById_Some_id[OF assms(1)] show ?thesis
    by (auto simp: getById_fail terminal_def)
next
  case (Cancel taskId userId)
  with assms show ?thesis
    by (simp add: apply_op_cancel del: apply_op.simps)
next
  case ResetStuckTasks
  with assms show ?thesis
    by (auto simp: getById_resetStuckTasks terminal_def)
qed

theorem terminal_stays_terminal_witness:
  "getById (run_ops ex_overwrite_history []) ''t1'' \<noteq> None
   \<and> (\<exists>t'. getById (apply_op 103 (Cancel ''t1'' 7) (run_ops ex_overwrite_history [])) ''t1'' = Some t'
            \<and> status t' = Failed)"
proof -
  obtain t where ld: "getById (run_ops ex_overwrite_history []) ''t1'' = Some t"
    and st: "status t = Failed"
    by (simp add: ex_overwrite_history_def store_eval)
  have tm: "terminal (status t)"
    using st by (simp add: terminal_def)
  from terminal_stays_terminal [OF ld tm, of 103 "Cancel ''t1'' 7"] ld st
  show ?thesis by auto
qed

text \<open>
  No call of \<open>cancel\<close> returns success, and none changes the table: where the four
  refusals do not apply, the update raises.
\<close>

lemma cancel_never_succeeds:
  "(\<exists>res. cancel now taskId userId rows = Inr (res, rows) \<and> \<not> success res)
   \<or> cancel now taskId userId rows = Inl CheckConstraint"
proof (cases "getById rows taskId")
  case None
  then show ?thesis by (simp add: cancel_def)
next
  case (Some t)
  show ?thesis
  proof (cases "user_id t = userId \<and> status t \<noteq> Completed \<and> status t \<noteq> Failed")
    case True
    with cancel_live_raises[OF Some, of userId now] show ?thesis by simp
  next
    case False
    with Some show ?thesis by (auto simp: cancel_def)
  qed
qed

text \<open>
  The refusals of \<open>cancel\<close> are as claim C6 says: a non-success result with a non-empty
  message and the table unchanged when the task is absent, the owner does not match, or the
  status is completed or failed.
\<close>

lemma cancel_refusals:
  "(getById rows taskId = None \<longrightarrow>
      cancel now taskId userId rows = Inr (\<lparr>success = False, message = msg_not_found\<rparr>, rows))
   \<and> (\<forall>t. getById rows taskId = Some t \<longrightarrow>
        (user_id t \<noteq> userId \<longrightarrow>
           cancel now taskId userId rows = Inr (\<lparr>success = False, message = msg_forbidden\<rparr>, rows))
      \<and> (user_id t = userId \<and> status t = Completed \<longrightarrow>
           cancel now taskId userId rows = Inr (\<lparr>success = False, message = msg_completed\<rparr>, rows))
      \<and> (user_id t = userId \<and> status t = Failed \<longrightarrow>
           cancel now taskId userId rows = Inr (\<lparr>success = False, message = msg_failed\<rparr>, rows)))
   \<and> msg_not_found \<noteq> [] \<and> msg_forbidden \<noteq> [] \<and> msg_completed \<noteq> [] \<and> msg_failed \<noteq> []"
  by (auto simp: cancel_def msg_not_found_def msg_forbidden_def msg_completed_def msg_failed_def)

text \<open>
  Claim C6 against the code. The claim says that \<open>cancel\<close> by the owner of a task that is
  neither completed nor failed returns success and sets the status to cancelled, and so do
  the comment above \<^verbatim>\<open>taskDb.cancel\<close> and the status type of the task. The code does not:
  for the pending task \<open>t1\<close> of user 7 the update violates the check constraint of the
  table, the call raises, nothing is returned and the task stays pending.
\<close>

theorem cancel_pending_raises:
  "getById [ex_task] ''t1'' = Some ex_task \<and> user_id ex_task = 7 \<and> status ex_task = Pending
   \<and> cancel 300 ''t1'' 7 [ex_task] = Inl CheckConstraint
   \<and> apply_op 300 (Cancel ''t1'' 7) [ex_task] = [ex_task]"
  by (simp add: ex_task_def store_eval)

lemma check_ok_sql_update:
  assumes "check_ok rows" and "\<And>r. status_check (status (g r))"
  shows "check_ok (snd (sql_update c g rows))"
  using assms unfolding check_ok_def sql_update_def by (auto simp: list_all_iff)

lemma check_ok_apply_op:
  assumes "check_ok rows"
  shows "check_ok (apply_op now op rows)"
proof (cases op)
  case (Create taskId userId ty inputData batchId)
  with assms show ?thesis
    by (auto simp: create_def check_ok_def status_check_def)
next
  case (StartProcessing taskId)
  with assms show ?thesis
    by (simp add: startProcessing_def case_prod_unfold Let_def check_ok_sql_update status_check_def)
next
  case (UpdateProgress taskId pct)
  with assms show ?thesis
    unfolding check_ok_def
    by (auto simp: updateProgress_def sql_update_def list_all_iff)
next
  case (Complete taskId out)
  with assms show ?thesis
    by (simp add: complete_def case_prod_unfold Let_def check_ok_sql_update status_check_def)
next
  case (Fail taskId msg)
  with assms show ?thesis
    by (simp add: fail_def case_prod_unfold Let_def check_ok_sql_update status_check_def)
next
  case (Cancel taskId userId)
  with assms show ?thesis
    by (simp add: apply_op_cancel del: apply_op.simps)
next
  case ResetStuckTasks
  with assms show ?thesis
    by (simp add: resetStuckTasks_def Let_def check_ok_sql_update status_check_def)
qed

lemma check_ok_run_ops:
  assumes "check_ok rows"
  shows "check_ok (run_ops ops rows)"
  using assms
proof (induction ops arbitrary: rows)
  case Nil
  then show ?case by simp
next
  case (Cons x ops)
  obtain now op where x: "x = (now, op)" by (cases x)
  from Cons.IH[OF check_ok_apply_op[OF Cons.prems, of now op]] x show ?case by simp
qed

lemma status_counts:
  "length (filter (\<lambda>r. status r = Pending) xs) + length (filter (\<lambda>r. status r = Processing) xs)
     + length (filter (\<lambda>r. status r = Completed) xs) + length (filter (\<lambda>r. status r = Failed) xs)
     + length (filter (\<lambda>r. status r = Cancelled) xs) = length xs"
proof (induction xs)
  case Nil
  then show ?case by simp
next
  case (Cons x xs)
  then show ?case by (cases "status x") simp_all
qed

lemma batch_progress_counts:
  "pending (getBatchProgress rows b) + processing (getBatchProgress rows b)
     + completed (getBatchProgress rows b) + failed (getBatchProgress rows b)
     + length (filter (\<lambda>r. batch_id r = Some b \<and> status r = Cancelled) rows)
     = total_count (getBatchProgress rows b)"
  using status_counts[of "filter (\<lambda>r. batch_id r = Some b) rows"]
  unfolding getBatchProgress_def Let_def
  by (simp add: conj_commute)

text \<open>
  Two siblings are created in batch \<open>b1\<close> and the owner cancels one of them: the call
  raises, and the progress of the batch is total 2, pending 2.
\<close>

lemma batch_progress_example:
  "getBatchProgress (run_ops ex_sibling_history []) ''b1'' =
     \<lparr>total_count = 2, completed = 0, failed = 0, processing = 0, pending = 2\<rparr>"
  by (simp add: ex_sibling_history_def store_eval)

text \<open>
  Claim C7. On every table the task store can produce from the empty table, by any history
  of its operations, the progress of any batch id has as total the number of tasks carrying
  that batch id, and pending + processing + completed + failed equals the total. A
  cancellation in the history does not disturb this: it leaves the table, and so the
  progress of every batch, as it was.
\<close>

theorem batch_progress_sum:
  "total_count (getBatchProgress (run_ops ops []) b)
     = length (filter (\<lambda>r. batch_id r = Some b) (run_ops ops []))
   \<and> pending (getBatchProgress (run_ops ops []) b) + processing (getBatchProgress (run_ops ops []) b)
     + completed (getBatchProgress (run_ops ops []) b) + failed (getBatchProgress (run_ops ops []) b)
     = total_count (getBatchProgress (run_ops ops []) b)
   \<and> getBatchProgress (run_ops (ops @ [(now, Cancel taskId userId)]) []) b
     = getBatchProgress (run_ops ops []) b"
proof -
  let ?rows = "run_ops ops []"
  have ok: "check_ok ?rows"
    by (rule check_ok_run_ops) (simp add: check_ok_def)
  have "filter (\<lambda>r. batch_id r = Some b \<and> status r = Cancelled) ?rows = []"
    using ok unfolding check_ok_def
    by (auto simp: filter_empty_conv list_all_iff status_check_def)
  with batch_progress_counts[of ?rows b]
  have sum: "pending (getBatchProgress ?rows b) + processing (getBatchProgress ?rows b)
     + completed (getBatchProgress ?rows b) + failed (getBatchProgress ?rows b)
     = total_count (getBatchProgress ?rows b)"
    by simp
  have tot: "total_count (getBatchProgress ?rows b) = length (filter (\<lambda>r. batch_id r = Some b) ?rows)"
    by (simp add: getBatchProgress_def Let_def)
  have app: "run_ops (xs @ ys) rows = run_ops ys (run_ops xs rows)"
    for xs ys :: "(int \<times> store_op) list" and rows
    by (induction xs arbitrary: rows) auto
  have "run_ops (ops @ [(now, Cancel taskId userId)]) [] = ?rows"
    by (simp add: app apply_op_cancel del: apply_op.simps)
  with sum tot show ?thesis by simp
qed

text \<open>
  Claim C8. \<open>resetStuckTasks\<close> returns the number of tasks whose status is processing
  and whose \<open>started_at\<close> is more than 600 seconds before now; each of them gets status
  pending, no \<open>started_at\<close> and progress 0. A processing task started within the last 600
  seconds is unchanged, and so is every task whose status is not processing.
\<close>

theorem resetStuckTasks_exact:
  "fst (resetStuckTasks now rows) =
     length (filter (\<lambda>r. status r = Processing \<and> (\<exists>s. started_at r = Some s \<and> s < now - 600)) rows)
   \<and> length (snd (resetStuckTasks now rows)) = length rows
   \<and> (\<forall>i < length rows.
        (status (rows ! i) = Processing \<and> (\<exists>s. started_at (rows ! i) = Some s \<and> s < now - 600)
           \<longrightarrow> snd (resetStuckTasks now rows) ! i =
                 (rows ! i)\<lparr>status := Pending, started_at := None, progress := 0\<rparr>)
      \<and> (status (rows ! i) = Processing \<and> (\<exists>s. started_at (rows ! i) = Some s \<and> now - 600 \<le> s)
           \<longrightarrow> snd (resetStuckTasks now rows) ! i = rows ! i)
      \<and> (status (rows ! i) \<noteq> Processing \<longrightarrow> snd (resetStuckTasks now rows) ! i = rows ! i))"
proof -
  have c: "(\<lambda>r. status r = Processing \<and> (case started_at r of None \<Rightarrow> False | Some s \<Rightarrow> s < now - 10 * 60))
         = (\<lambda>r. status r = Processing \<and> (\<exists>s. started_at r = Some s \<and> s < now - 600))"
    by (auto split: option.splits)
  show ?thesis
    unfolding resetStuckTasks_def sql_update_def Let_def c
    by auto
qed

theorem resetStuckTasks_exact_witness:
  "0 < length (run_ops ex_stuck_history [])
   \<and> fst (resetStuckTasks 1200 (run_ops ex_stuck_history [])) = 1
   \<and> map status (snd (resetStuckTasks 1200 (run_ops ex_stuck_history [])))
       = [Pending, Processing, Pending]
   \<and> snd (resetStuckTasks 1200 (run_ops ex_stuck_history [])) ! 0
       = (run_ops ex_stuck_history [] ! 0)\<lparr>status := Pending, started_at := None, progress := 0\<rparr>"
proof -
  have rows: "run_ops ex_stuck_history [] =
      [ex_task\<lparr>task_id := ''a'', created_at := 50, status := Processing, started_at := Some 100, progress := 10\<rparr>,
       ex_task\<lparr>task_id := ''b'', created_at := 60, status := Processing, started_at := Some 1000, progress := 10\<rparr>,
       ex_task\<lparr>task_id := ''c'', created_at := 70\<rparr>]"
    by (simp add: ex_stuck_history_def ex_task_def create_def startProcessing_def sql_update_def)
  have len: "0 < length (run_ops ex_stuck_history [])"
    by (simp add: rows)
  have stuck: "status (run_ops ex_stuck_history [] ! 0) = Processing
      \<and> (\<exists>s. started_at (run_ops ex_stuck_history [] ! 0) = Some s \<and> s < 1200 - 600)"
    by (simp add: rows)
  from resetStuckTasks_exact [of 1200 "run_ops ex_stuck_history []"] len stuck
  have first: "snd (resetStuckTasks 1200 (run_ops ex_stuck_history [])) ! 0
       = (run_ops ex_stuck_history [] ! 0)\<lparr>status := Pending, started_at := None, progress := 0\<rparr>"
    by blast
  have cnt: "fst (resetStuckTasks 1200 (run_ops ex_stuck_history [])) = 1"
    by (simp add: rows resetStuckTasks_def sql_update_def ex_task_def)
  have sts: "map status (snd (resetStuckTasks 1200 (run_ops ex_stuck_history [])))
       = [Pending, Processing, Pending]"
    by (simp add: rows resetStuckTasks_def sql_update_def ex_task_def)
  from len cnt sts first show ?thesis by simp
qed

section \<open>Properties of the executor\<close>

lemma started_append [simp]: "started (es @ fs) = started es @ started fs"
  by (induction es rule: started.induct) auto

lemma finished_append [simp]: "finished (es @ fs) = finished es @ finished fs"
  by (induction es rule: finished.induct) auto













































section \<open>Properties of the task processor\<close>









lemma subTaskRows_length [simp]: "length (subTaskRows env task b now u cs) = length cs"
  by (induction cs arbitrary: u) simp_all























section \<open>Properties of the queue consumer\<close>

lemma getById_failed:
  "getById (snd (fail now k msg rows)) k =
     map_option (\<lambda>t. t\<lparr>status := Failed, error_message := Some msg, completed_at := Some now\<rparr>)
       (getById rows k)"
proof (cases "getById rows k")
  case None
  then show ?thesis by (simp add: getById_fail)
next
  case (Some t)
  with getById_Some_id[OF Some] show ?thesis by (simp add: getById_fail)
qed

lemma queue_raised_written:
  assumes "proc (msg_taskId m) w = Inl (err, w')" and "down w' = None"
  shows "queue proc down (m # ms) w =
           (case queue proc down ms
                   (w'\<lparr>tasks := snd (fail (clock w') (msg_taskId m)
                                       (if err = [] then msg_queue_failed else err) (tasks w'))\<rparr>) of
              (ds, w2, raised) \<Rightarrow>
                ((if msg_attempts m < 3 then Retry (10 * 2 ^ msg_attempts m) else Ack) # ds, w2, raised))"
  using assms by (simp add: consume_def store_fail_def mult.commute)

lemma queue_raised_lost:
  assumes "proc (msg_taskId m) w = Inl (err, w')" and "down w' = Some e"
  shows "queue proc down (m # ms) w = ([], w', Some e)"
  using assms by (simp add: consume_def store_fail_def)

lemma redeliver_unfold:
  "redeliver proc down m w =
     (case queue proc down [m] w of
        (Retry delaySeconds # ds, w', raised) \<Rightarrow>
          redeliver proc down (m\<lparr>msg_attempts := Suc (msg_attempts m)\<rparr>)
            (w'\<lparr>clock := clock w' + int delaySeconds\<rparr>)
      | (ds, w', raised) \<Rightarrow> (m, w', raised))"
  by (rule redeliver.simps)

lemma redeliver_exhausts:
  "\<forall>v. \<exists>err v'. proc (msg_taskId m) v = Inl (err, v') \<Longrightarrow>
   \<forall>v. down v = None \<Longrightarrow>
   \<forall>v err v'. proc (msg_taskId m) v = Inl (err, v') \<longrightarrow> getById (tasks v) (msg_taskId m) \<noteq> None
      \<longrightarrow> getById (tasks v') (msg_taskId m) \<noteq> None \<Longrightarrow>
   getById (tasks w) (msg_taskId m) \<noteq> None \<Longrightarrow>
   fst (redeliver proc down m w) = m\<lparr>msg_attempts := max 3 (msg_attempts m)\<rparr>
   \<and> snd (snd (redeliver proc down m w)) = None
   \<and> map_option status (getById (tasks (fst (snd (redeliver proc down m w)))) (msg_taskId m))
       = Some Failed"
proof (induction proc down m w rule: redeliver.induct)
  case (1 proc down m w)
  let ?tid = "msg_taskId m"
  from "1.prems"(1) obtain err w' where r: "proc ?tid w = Inl (err, w')"
    by blast
  with "1.prems"(3,4) have pres: "getById (tasks w') ?tid \<noteq> None" by blast
  from "1.prems"(2) have up: "down w' = None" by simp
  let ?msg = "if err = [] then msg_queue_failed else err"
  let ?w1 = "w'\<lparr>tasks := snd (fail (clock w') ?tid ?msg (tasks w'))\<rparr>"
  let ?d = "if msg_attempts m < 3 then Retry (10 * 2 ^ msg_attempts m) else Ack"
  have q: "queue proc down [m] w = ([?d], ?w1, None)"
    using queue_raised_written[of proc m w err w' down "[]", OF r up] by simp
  from pres have st1: "map_option status (getById (tasks ?w1) ?tid) = Some Failed"
    by (auto simp: getById_failed option.map_comp comp_def)
  then have pres1: "getById (tasks ?w1) ?tid \<noteq> None" by auto
  show ?case
  proof (cases "msg_attempts m < 3")
    case False
    with q have q': "queue proc down [m] w = ([Ack], ?w1, None)"
      by simp
    have "redeliver proc down m w = (m, ?w1, None)"
      by (subst redeliver_unfold, subst q') simp
    moreover from False have "max 3 (msg_attempts m) = msg_attempts m" by simp
    ultimately show ?thesis using st1 by simp
  next
    case True
    let ?m' = "m\<lparr>msg_attempts := Suc (msg_attempts m)\<rparr>"
    let ?w' = "?w1\<lparr>clock := clock ?w1 + int (10 * 2 ^ msg_attempts m)\<rparr>"
    from q True have q': "queue proc down [m] w = ([Retry (10 * 2 ^ msg_attempts m)], ?w1, None)"
      by simp
    have eq: "redeliver proc down m w = redeliver proc down ?m' ?w'"
      by (subst redeliver_unfold, subst q') simp
    have "fst (redeliver proc down ?m' ?w') = ?m'\<lparr>msg_attempts := max 3 (msg_attempts ?m')\<rparr>
         \<and> snd (snd (redeliver proc down ?m' ?w')) = None
         \<and> map_option status
              (getById (tasks (fst (snd (redeliver proc down ?m' ?w')))) (msg_taskId ?m'))
             = Some Failed"
    proof -
      have p1: "\<forall>v. \<exists>err v'. proc (msg_taskId ?m') v = Inl (err, v')"
        using "1.prems"(1) by simp
      have p3: "\<forall>v err v'. proc (msg_taskId ?m') v = Inl (err, v')
          \<longrightarrow> getById (tasks v) (msg_taskId ?m') \<noteq> None
          \<longrightarrow> getById (tasks v') (msg_taskId ?m') \<noteq> None"
        using "1.prems"(3) by simp
      have p4: "getById (tasks ?w') (msg_taskId ?m') \<noteq> None"
        using pres1 by simp
      from "1.IH"[OF q'[symmetric] refl refl refl p1 "1.prems"(2) p3 p4]
      show ?thesis .
    qed
    moreover from True have "max 3 (Suc (msg_attempts m)) = max 3 (msg_attempts m)" by simp
    ultimately show ?thesis unfolding eq by simp
  qed
qed

text \<open>
  Claim C9, as stated, fails when the write of \<open>fail\<close> raises, as it does while the task
  store is unreachable, which is also why processing raises: the exception leaves the
  \<^verbatim>\<open>catch\<close> block, the handler raises, the message is neither acknowledged nor asked to be
  redelivered, and the task is not failed.
\<close>

theorem failed_write_leaves_message_unsettled:
  "ex_raising (msg_taskId ex_message) ex_world = Inl (''D1_ERROR: Network connection lost'', ex_world)
   \<and> queue ex_raising store_lost [ex_message] ex_world
       = ([], ex_world, Some ''D1_ERROR: Network connection lost'')
   \<and> map_option status (getById (tasks ex_world) (msg_taskId ex_message)) = Some Pending"
  by (simp add: ex_raising_def store_lost_def ex_message_def ex_world_def ex_task_def
        consume_def store_fail_def getById_def)

text \<open>
  Claim C9, amended. For a delivery whose processing raises, the handler \<open>queue\<close> calls
  \<open>fail\<close> on the task, with the exception's message or the fallback message. When that
  write succeeds, the task is failed, the message is asked to be redelivered after
  \<open>10 * 2 ^ attempts\<close> seconds while the attempt count is below 3 and is acknowledged
  otherwise, and the handler goes on with the rest of the batch. When the write raises, the
  handler raises: this message and the rest of the batch are left unsettled. When
  processing raises on every attempt, the store answers every write and the task stays in
  the table, the deliveries end: the last one has attempt count 3 (or the count the message
  came with, if that was higher), the handler acknowledges it without raising, and the task
  is failed.
\<close>

theorem consumer_fails_then_retries_or_acks:
  "(\<forall>err w'. proc (msg_taskId m) w = Inl (err, w') \<longrightarrow>
      (down w' = None \<longrightarrow>
         queue proc down (m # ms) w =
           (case queue proc down ms
                   (w'\<lparr>tasks := snd (fail (clock w') (msg_taskId m)
                                       (if err = [] then msg_queue_failed else err) (tasks w'))\<rparr>) of
              (ds, w2, raised) \<Rightarrow>
                ((if msg_attempts m < 3 then Retry (10 * 2 ^ msg_attempts m) else Ack) # ds,
                 w2, raised))
         \<and> getById (snd (fail (clock w') (msg_taskId m)
                           (if err = [] then msg_queue_failed else err) (tasks w'))) (msg_taskId m)
             = map_option (\<lambda>t. t\<lparr>status := Failed,
                                 error_message := Some (if err = [] then msg_queue_failed else err),
                                 completed_at := Some (clock w')\<rparr>)
                 (getById (tasks w') (msg_taskId m)))
      \<and> (\<forall>e. down w' = Some e \<longrightarrow> queue proc down (m # ms) w = ([], w', Some e)))
   \<and> ((\<forall>v. \<exists>err v'. proc (msg_taskId m) v = Inl (err, v'))
        \<and> (\<forall>v. down v = None)
        \<and> (\<forall>v err v'. proc (msg_taskId m) v = Inl (err, v')
              \<longrightarrow> getById (tasks v) (msg_taskId m) \<noteq> None
              \<longrightarrow> getById (tasks v') (msg_taskId m) \<noteq> None)
        \<and> getById (tasks w) (msg_taskId m) \<noteq> None
      \<longrightarrow> fst (redeliver proc down m w) = m\<lparr>msg_attempts := max 3 (msg_attempts m)\<rparr>
          \<and> snd (snd (redeliver proc down m w)) = None
          \<and> (\<forall>v. fst (queue proc down [fst (redeliver proc down m w)] v) = [Ack])
          \<and> map_option status
               (getById (tasks (fst (snd (redeliver proc down m w)))) (msg_taskId m)) = Some Failed)"
proof (rule conjI)
  show "\<forall>err w'. proc (msg_taskId m) w = Inl (err, w') \<longrightarrow>
      (down w' = None \<longrightarrow>
         queue proc down (m # ms) w =
           (case queue proc down ms
                   (w'\<lparr>tasks := snd (fail (clock w') (msg_taskId m)
                                       (if err = [] then msg_queue_failed else err) (tasks w'))\<rparr>) of
              (ds, w2, raised) \<Rightarrow>
                ((if msg_attempts m < 3 then Retry (10 * 2 ^ msg_attempts m) else Ack) # ds,
                 w2, raised))
         \<and> getById (snd (fail (clock w') (msg_taskId m)
                           (if err = [] then msg_queue_failed else err) (tasks w'))) (msg_taskId m)
             = map_option (\<lambda>t. t\<lparr>status := Failed,
                                 error_message := Some (if err = [] then msg_queue_failed else err),
                                 completed_at := Some (clock w')\<rparr>)
                 (getById (tasks w') (msg_taskId m)))
      \<and> (\<forall>e. down w' = Some e \<longrightarrow> queue proc down (m # ms) w = ([], w', Some e))"
  proof (intro allI impI conjI)
    fix err w' assume r: "proc (msg_taskId m) w = Inl (err, w')" and up: "down w' = None"
    from queue_raised_written[of proc m w err w' down ms, OF r up]
    show "queue proc down (m # ms) w =
           (case queue proc down ms
                   (w'\<lparr>tasks := snd (fail (clock w') (msg_taskId m)
                                       (if err = [] then msg_queue_failed else err) (tasks w'))\<rparr>) of
              (ds, w2, raised) \<Rightarrow>
                ((if msg_attempts m < 3 then Retry (10 * 2 ^ msg_attempts m) else Ack) # ds,
                 w2, raised))" .
    show "getById (snd (fail (clock w') (msg_taskId m)
                           (if err = [] then msg_queue_failed else err) (tasks w'))) (msg_taskId m)
             = map_option (\<lambda>t. t\<lparr>status := Failed,
                                 error_message := Some (if err = [] then msg_queue_failed else err),
                                 completed_at := Some (clock w')\<rparr>)
                 (getById (tasks w') (msg_taskId m))"
      by (rule getById_failed)
  next
    fix err w' e assume r: "proc (msg_taskId m) w = Inl (err, w')" and lost: "down w' = Some e"
    from queue_raised_lost[of proc m w err w' down e ms, OF r lost]
    show "queue proc down (m # ms) w = ([], w', Some e)" .
  qed
next
  show "(\<forall>v. \<exists>err v'. proc (msg_taskId m) v = Inl (err, v'))
        \<and> (\<forall>v. down v = None)
        \<and> (\<forall>v err v'. proc (msg_taskId m) v = Inl (err, v')
              \<longrightarrow> getById (tasks v) (msg_taskId m) \<noteq> None
              \<longrightarrow> getById (tasks v') (msg_taskId m) \<noteq> None)
        \<and> getById (tasks w) (msg_taskId m) \<noteq> None
      \<longrightarrow> fst (redeliver proc down m w) = m\<lparr>msg_attempts := max 3 (msg_attempts m)\<rparr>
          \<and> snd (snd (redeliver proc down m w)) = None
          \<and> (\<forall>v. fst (queue proc down [fst (redeliver proc down m w)] v) = [Ack])
          \<and> map_option status
               (getById (tasks (fst (snd (redeliver proc down m w)))) (msg_taskId m)) = Some Failed"
  proof
    assume a: "(\<forall>v. \<exists>err v'. proc (msg_taskId m) v = Inl (err, v'))
        \<and> (\<forall>v. down v = None)
        \<and> (\<forall>v err v'. proc (msg_taskId m) v = Inl (err, v')
              \<longrightarrow> getById (tasks v) (msg_taskId m) \<noteq> None
              \<longrightarrow> getById (tasks v') (msg_taskId m) \<noteq> None)
        \<and> getById (tasks w) (msg_taskId m) \<noteq> None"
    then have raises: "\<forall>v. \<exists>err v'. proc (msg_taskId m) v = Inl (err, v')"
      and up: "\<forall>v. down v = None"
      and keeps: "\<forall>v err v'. proc (msg_taskId m) v = Inl (err, v')
              \<longrightarrow> getById (tasks v) (msg_taskId m) \<noteq> None
              \<longrightarrow> getById (tasks v') (msg_taskId m) \<noteq> None"
      and present: "getById (tasks w) (msg_taskId m) \<noteq> None"
      by blast+
    from redeliver_exhausts[of proc m down w, OF raises up keeps present]
    have fin: "fst (redeliver proc down m w) = m\<lparr>msg_attempts := max 3 (msg_attempts m)\<rparr>"
      and quiet: "snd (snd (redeliver proc down m w)) = None"
      and st: "map_option status
                 (getById (tasks (fst (snd (redeliver proc down m w)))) (msg_taskId m)) = Some Failed"
      by simp_all
    have ack: "fst (queue proc down [fst (redeliver proc down m w)] v) = [Ack]" for v
    proof -
      from raises obtain err v' where "proc (msg_taskId m) v = Inl (err, v')" by blast
      with up show ?thesis
        unfolding fin by (simp add: consume_def store_fail_def)
    qed
    from fin quiet st ack
    show "fst (redeliver proc down m w) = m\<lparr>msg_attempts := max 3 (msg_attempts m)\<rparr>
          \<and> snd (snd (redeliver proc down m w)) = None
          \<and> (\<forall>v. fst (queue proc down [fst (redeliver proc down m w)] v) = [Ack])
          \<and> map_option status
               (getById (tasks (fst (snd (redeliver proc down m w)))) (msg_taskId m)) = Some Failed"
      by blast
  qed
qed

theorem consumer_fails_then_retries_or_acks_witness:
  "ex_raising (msg_taskId ex_message) ex_world = Inl (''D1_ERROR: Network connection lost'', ex_world)
   \<and> store_up ex_world = None
   \<and> getById (tasks ex_world) (msg_taskId ex_message) \<noteq> None
   \<and> fst (queue ex_raising store_up [ex_message] ex_world) = [Retry 20]
   \<and> snd (snd (queue ex_raising store_up [ex_message] ex_world)) = None
   \<and> map_option status
        (getById (tasks (fst (snd (queue ex_raising store_up [ex_message] ex_world)))) ''t1'')
       = Some Failed
   \<and> msg_attempts (fst (redeliver ex_raising store_up ex_message ex_world)) = 3
   \<and> snd (snd (redeliver ex_raising store_up ex_message ex_world)) = None
   \<and> fst (queue ex_raising store_up [fst (redeliver ex_raising store_up ex_message ex_world)] ex_world)
       = [Ack]
   \<and> map_option status
        (getById (tasks (fst (snd (redeliver ex_raising store_up ex_message ex_world)))) ''t1'')
       = Some Failed"
proof -
  let ?err = "''D1_ERROR: Network connection lost''"
  have r: "ex_raising (msg_taskId ex_message) ex_world = Inl (?err, ex_world)"
    by (simp add: ex_raising_def)
  have up1: "store_up ex_world = None"
    by (simp add: store_up_def)
  have raises: "\<forall>v. \<exists>err v'. ex_raising (msg_taskId ex_message) v = Inl (err, v')"
    by (simp add: ex_raising_def)
  have up: "\<forall>v. store_up v = None"
    by (simp add: store_up_def)
  have keeps: "\<forall>v err v'. ex_raising (msg_taskId ex_message) v = Inl (err, v')
      \<longrightarrow> getById (tasks v) (msg_taskId ex_message) \<noteq> None
      \<longrightarrow> getById (tasks v') (msg_taskId ex_message) \<noteq> None"
    by (simp add: ex_raising_def)
  have present: "getById (tasks ex_world) (msg_taskId ex_message) \<noteq> None"
    by (simp add: ex_world_def ex_message_def ex_task_def getById_def)
  have tid: "msg_taskId ex_message = ''t1''" and att: "msg_attempts ex_message = 1"
    by (simp_all add: ex_message_def)
  note inst = consumer_fails_then_retries_or_acks [of ex_raising ex_message ex_world store_up "[]"]
  let ?w1 = "ex_world\<lparr>tasks := snd (fail (clock ex_world) (msg_taskId ex_message) ?err (tasks ex_world))\<rparr>"
  from inst r up1 have one: "queue ex_raising store_up [ex_message] ex_world =
        (case queue ex_raising store_up [] ?w1 of
           (ds, w2, raised) \<Rightarrow>
             ((if msg_attempts ex_message < 3 then Retry (10 * 2 ^ msg_attempts ex_message) else Ack) # ds,
              w2, raised))"
    and row: "getById (snd (fail (clock ex_world) (msg_taskId ex_message) ?err (tasks ex_world)))
                (msg_taskId ex_message) =
          map_option (\<lambda>t. t\<lparr>status := Failed, error_message := Some ?err,
                              completed_at := Some (clock ex_world)\<rparr>)
            (getById (tasks ex_world) (msg_taskId ex_message))"
    by simp_all
  from inst raises up keeps present
  have fin: "fst (redeliver ex_raising store_up ex_message ex_world)
        = ex_message\<lparr>msg_attempts := max 3 (msg_attempts ex_message)\<rparr>"
    and quiet: "snd (snd (redeliver ex_raising store_up ex_message ex_world)) = None"
    and ack: "\<forall>v. fst (queue ex_raising store_up
                          [fst (redeliver ex_raising store_up ex_message ex_world)] v) = [Ack]"
    and st: "map_option status
               (getById (tasks (fst (snd (redeliver ex_raising store_up ex_message ex_world))))
                  (msg_taskId ex_message)) = Some Failed"
    by blast+
  from one att have q: "queue ex_raising store_up [ex_message] ex_world = ([Retry 20], ?w1, None)"
    by simp
  from row present tid
  have b: "map_option status (getById (tasks ?w1) ''t1'') = Some Failed"
    by (auto simp: option.map_comp comp_def)
  from fin att have c: "msg_attempts (fst (redeliver ex_raising store_up ex_message ex_world)) = 3"
    by simp
  from r up1 present q b c quiet ack st tid show ?thesis by simp
qed

end
